theory Spec2Isabelle
  imports Main "HOL-Library.AList"
begin

section \<open>Python strings and paths\<close>

text \<open>
  The module \<^verbatim>\<open>scspkg/pkg.py\<close> builds modulefiles and the shell text that loads and
  unloads a package. Its strings are modelled as \<^typ>\<open>string\<close>; the string methods it
  calls (\<^verbatim>\<open>join\<close>, \<^verbatim>\<open>replace\<close>, \<^verbatim>\<open>strip\<close>, \<^verbatim>\<open>os.path.join\<close>) are written out below as
  Python defines them.
\<close>

definition startswith :: "string \<Rightarrow> string \<Rightarrow> bool" where
  "startswith s p = (take (length p) s = p)"

definition endswith :: "string \<Rightarrow> string \<Rightarrow> bool" where
  "endswith s p = (length p \<le> length s \<and> drop (length s - length p) s = p)"

text \<open>\<^verbatim>\<open>sep.join(xs)\<close>\<close>

fun str_join :: "string \<Rightarrow> string list \<Rightarrow> string" where
  "str_join sep [] = []"
| "str_join sep [x] = x"
| "str_join sep (x # y # ys) = x @ sep @ str_join sep (y # ys)"

text \<open>
  \<^verbatim>\<open>s.replace(old, new)\<close>: every occurrence of \<open>old\<close>, found from the left and not
  overlapping, is replaced; an empty \<open>old\<close> matches before every character and at the end.
\<close>

function str_replace :: "string \<Rightarrow> string \<Rightarrow> string \<Rightarrow> string" where
  "str_replace [] new s = new @ concat (map (\<lambda>c. c # new) s)"
| "str_replace (a # old) new [] = []"
| "str_replace (a # old) new (c # s) =
     (if startswith (c # s) (a # old)
      then new @ str_replace (a # old) new (drop (length (a # old)) (c # s))
      else c # str_replace (a # old) new s)"
  by pat_completeness auto
termination
  by (relation "measure (\<lambda>(old, new, s). length s)") auto

text \<open>\<^verbatim>\<open>s.strip(chars)\<close>: leading and trailing characters of \<open>chars\<close> are removed.\<close>

definition str_strip :: "string \<Rightarrow> string \<Rightarrow> string" where
  "str_strip chars s =
     rev (dropWhile (\<lambda>c. c \<in> set chars) (rev (dropWhile (\<lambda>c. c \<in> set chars) s)))"

text \<open>
  \<^verbatim>\<open>os.path.join(path, *bs)\<close> of \<^verbatim>\<open>posixpath\<close>: a component that starts with the separator
  replaces what was joined so far; otherwise it is added, after a separator unless the path
  is empty or already ends with one.
\<close>

fun path_join :: "string \<Rightarrow> string list \<Rightarrow> string" where
  "path_join path [] = path"
| "path_join path (b # bs) =
     path_join (if startswith b ''/'' then b
                else if path = [] \<or> endswith path ''/'' then path @ b
                else path @ ''/'' @ b) bs"

section \<open>The package and its sections\<close>

text \<open>
  A Python \<^verbatim>\<open>dict\<close> keeps its keys in insertion order and the renderers iterate in that
  order, so a dictionary is an association list: \<^const>\<open>AList.update\<close> is
  \<^verbatim>\<open>d[k] = v\<close> (the value is replaced where the key stands, a new key goes last),
  \<^const>\<open>AList.delete\<close> is \<^verbatim>\<open>del d[k]\<close>, \<^const>\<open>map_of\<close> is the lookup and
  \<open>dict_contains\<close> is \<^verbatim>\<open>k in d\<close>.

  \<^verbatim>\<open>Package.sections\<close> is the dictionary \<^verbatim>\<open>reset_config\<close> seeds with the keys
  \<^verbatim>\<open>doc\<close>, \<^verbatim>\<open>deps\<close>, \<^verbatim>\<open>setenvs\<close> and \<^verbatim>\<open>prepends\<close>; these four are fields that are always
  there. The key \<^verbatim>\<open>appends\<close> is not seeded by \<^verbatim>\<open>reset_config\<close> and is only there when
  the stored document of the package has it, so that field is optional.
\<close>

definition dict_contains :: "'k \<Rightarrow> ('k \<times> 'v) list \<Rightarrow> bool" where
  "dict_contains k d = (k \<in> set (map fst d))"

datatype error = KeyError string | SystemExit int

record sections =
  doc :: "(string \<times> string) list"
  deps :: "(string \<times> bool) list"
  setenvs :: "(string \<times> string) list"
  prepends :: "(string \<times> string list) list"
  appends :: "(string \<times> string list) list option"

record package =
  name :: string
  pkg_root :: string
  sections :: sections

text \<open>An argument that the source takes as a string or as a list of strings.\<close>

datatype str_or_list = Str string | Lst "string list"

text \<open>\<^verbatim>\<open>if isinstance(x, str): x = [x]\<close>\<close>

fun as_list :: "str_or_list \<Rightarrow> string list" where
  "as_list (Str s) = [s]"
| "as_list (Lst xs) = xs"

text \<open>\<^verbatim>\<open>self.mod_load_name = f'SCSPKG_{self.name}_LOADED'\<close>\<close>

definition mod_load_name :: "package \<Rightarrow> string" where
  "mod_load_name p = ''SCSPKG_'' @ name p @ ''_LOADED''"

text \<open>\<^verbatim>\<open>Package.reset_config\<close>: the skeleton, which has no \<^verbatim>\<open>appends\<close> key.\<close>

definition reset_config :: "package \<Rightarrow> package" where
  "reset_config p = p\<lparr>sections :=
     \<lparr>doc = [(''Name'', name p), (''Version'', ''None''), (''doc'', ''None'')],
      deps = [],
      setenvs = [],
      prepends =
        [(''PATH'', [path_join (pkg_root p) [''bin''], path_join (pkg_root p) [''sbin'']]),
         (''LD_LIBRARY_PATH'',
            [path_join (pkg_root p) [''lib''], path_join (pkg_root p) [''lib64'']]),
         (''LIBRARY_PATH'',
            [path_join (pkg_root p) [''lib''], path_join (pkg_root p) [''lib64'']]),
         (''INCLUDE'', []),
         (''CPATH'', []),
         (''CMAKE_PREFIX_PATH'', [path_join (pkg_root p) [''cmake'']]),
         (''PYTHONPATH'',
            [path_join (pkg_root p) [''bin''], path_join (pkg_root p) [''lib''],
             path_join (pkg_root p) [''lib64'']]),
         (''PKG_CONFIG_PATH'',
            [path_join (pkg_root p) [''lib'', ''pkgconfig''],
             path_join (pkg_root p) [''lib64'', ''pkgconfig'']]),
         (''CFLAGS'', []),
         (''LDFLAGS'', [])],
      appends = None\<rparr>\<rparr>"

text \<open>
  \<^verbatim>\<open>Package.__init__\<close> without the read of the stored document: \<open>pkg_dir\<close> is the
  package directory of the configuration manager, and the empty \<^verbatim>\<open>self.sections = {}\<close> is
  replaced by the skeleton at once.
\<close>

definition init_package :: "string \<Rightarrow> string \<Rightarrow> package" where
  "init_package pkg_dir package_name =
     reset_config
       \<lparr>name = package_name,
        pkg_root = path_join pkg_dir [package_name],
        sections = \<lparr>doc = [], deps = [], setenvs = [], prepends = [], appends = None\<rparr>\<rparr>"

subsection \<open>Accessors\<close>

text \<open>\<^verbatim>\<open>Package.set_env\<close>\<close>

definition set_env :: "string \<Rightarrow> string \<Rightarrow> package \<Rightarrow> package" where
  "set_env env_name env_data p =
     (let s1 = (sections p)\<lparr>setenvs := AList.update env_name env_data (setenvs (sections p))\<rparr>;
          s2 = (if dict_contains env_name (prepends s1)
                then s1\<lparr>prepends := AList.delete env_name (prepends s1)\<rparr>
                else s1)
      in p\<lparr>sections := s2\<rparr>)"

text \<open>
  \<^verbatim>\<open>Package.prepend_env\<close>. The statement \<^verbatim>\<open>d[k] += env_data\<close> extends the list stored
  under \<open>k\<close>, which is there after the line before it.
\<close>

definition prepend_env :: "string \<Rightarrow> str_or_list \<Rightarrow> package \<Rightarrow> package" where
  "prepend_env env_name env_data p =
     (let env_data = as_list env_data;
          pre = prepends (sections p);
          pre1 = (if \<not> dict_contains env_name pre then AList.update env_name [] pre else pre);
          pre2 = AList.map_entry env_name (\<lambda>old. old @ env_data) pre1
      in p\<lparr>sections := (sections p)\<lparr>prepends := pre2\<rparr>\<rparr>)"

text \<open>
  \<^verbatim>\<open>Package.append_env\<close>. \<^verbatim>\<open>self.sections['appends']\<close> raises \<^verbatim>\<open>KeyError\<close> when the
  sections have no such key. \<^verbatim>\<open>env_data += self.sections['appends'][env_name]\<close> puts the
  stored fragments after the new ones, and the result is stored.
\<close>

definition append_env :: "string \<Rightarrow> str_or_list \<Rightarrow> package \<Rightarrow> error + package" where
  "append_env env_name env_data p =
     (let env_data = as_list env_data
      in case appends (sections p) of
           None \<Rightarrow> Inl (KeyError ''appends'')
         | Some app \<Rightarrow>
             (let app1 = (if \<not> dict_contains env_name app
                          then AList.update env_name [] app else app)
              in case map_of app1 env_name of
                   None \<Rightarrow> Inl (KeyError env_name)
                 | Some old \<Rightarrow>
                     Inr (p\<lparr>sections := (sections p)
                            \<lparr>appends := Some (AList.update env_name (env_data @ old) app1)\<rparr>\<rparr>)))"

text \<open>\<^verbatim>\<open>Package.rm_env\<close>\<close>

definition rm_env :: "string \<Rightarrow> package \<Rightarrow> package" where
  "rm_env env_name p =
     (let s0 = sections p;
          s1 = (if dict_contains env_name (setenvs s0)
                then s0\<lparr>setenvs := AList.delete env_name (setenvs s0)\<rparr> else s0);
          s2 = (if dict_contains env_name (prepends s1)
                then s1\<lparr>prepends := AList.delete env_name (prepends s1)\<rparr> else s1)
      in p\<lparr>sections := s2\<rparr>)"

text \<open>
  \<^verbatim>\<open>Package.pop_prepend\<close>: \<^verbatim>\<open>list.remove\<close> takes out the first occurrence. The second
  component is what the call prints.
\<close>

definition pop_prepend :: "string \<Rightarrow> string \<Rightarrow> package \<Rightarrow> package \<times> string list" where
  "pop_prepend env_name env_data p =
     (case map_of (prepends (sections p)) env_name of
        Some pre \<Rightarrow>
          (if env_data \<in> set pre
           then (p\<lparr>sections := (sections p)
                   \<lparr>prepends := AList.update env_name (remove1 env_data pre)
                                  (prepends (sections p))\<rparr>\<rparr>, [])
           else (p, [env_data @ '' not in '' @ env_name @ '' prepend variable'']))
      | None \<Rightarrow> (p, [env_name @ '' is not a prepend variable'']))"

text \<open>\<^verbatim>\<open>Package.add_deps\<close>\<close>

definition add_deps :: "str_or_list \<Rightarrow> package \<Rightarrow> package" where
  "add_deps ds p =
     p\<lparr>sections := (sections p)
        \<lparr>deps := fold (\<lambda>dep d. AList.update dep True d) (as_list ds) (deps (sections p))\<rparr>\<rparr>"

text \<open>
  \<^verbatim>\<open>Package.pop_deps\<close>. Its closing \<^verbatim>\<open>self.save()\<close> writes the stored document and the
  modulefile and leaves the sections as they are.
\<close>

definition pop_deps :: "str_or_list \<Rightarrow> package \<Rightarrow> package" where
  "pop_deps ds p =
     p\<lparr>sections := (sections p)
        \<lparr>deps := fold (\<lambda>dep d. if dict_contains dep d then AList.delete dep d else d)
                   (as_list ds) (deps (sections p))\<rparr>\<rparr>"

text \<open>
  \<^verbatim>\<open>Package.build_profile\<close>, with the snapshot \<open>profile\<close> of the configuration manager as
  an argument: on a rebuild the sections are reset and every entry of the snapshot goes
  through \<^verbatim>\<open>append_env\<close>.
\<close>

fun append_all :: "(string \<times> str_or_list) list \<Rightarrow> package \<Rightarrow> error + package" where
  "append_all [] p = Inr p"
| "append_all ((env_key, env_data) # rest) p =
     (case append_env env_key env_data p of
        Inl e \<Rightarrow> Inl e
      | Inr p' \<Rightarrow> append_all rest p')"

definition build_profile :: "(string \<times> str_or_list) list \<Rightarrow> bool \<Rightarrow> package \<Rightarrow> error + package" where
  "build_profile profile rebuild p =
     (if rebuild then append_all profile (reset_config p) else Inr p)"

section \<open>The static modulefile\<close>

text \<open>
  \<^verbatim>\<open>Package._save_as_tcl\<close> collects the lines of the modulefile in the list \<^verbatim>\<open>module\<close>,
  one \<^verbatim>\<open>append\<close> per loop round, and writes them joined by newlines to the module path.
  \<open>tcl_module\<close> is that list and \<open>save_as_tcl\<close> the text written.
\<close>

definition tcl_module :: "package \<Rightarrow> string list" where
  "tcl_module p =
     (let module = [];
          module = module @ [''#%Module1.0''];
          module = fold (\<lambda>(doc_key, doc_val) module.
                     module @ [''module-whatis '' @ [CHR 0x27] @ doc_key @ '': '' @ doc_val
                               @ [CHR 0x27]])
                     (doc (sections p)) module;
          module = fold (\<lambda>dep module. module @ [''module load '' @ dep])
                     (map fst (deps (sections p))) module;
          module = fold (\<lambda>(env, env_data) module.
                     module @ [''setenv '' @ env @ '' '' @ env_data])
                     (setenvs (sections p)) module;
          module = fold (\<lambda>(env, values) module.
                     fold (\<lambda>env_data module.
                        module @ [''prepend-path '' @ env @ '' '' @ env_data]) values module)
                     (prepends (sections p)) module
      in module)"

definition save_as_tcl :: "package \<Rightarrow> string" where
  "save_as_tcl p = str_join [CHR 0x0A] (tcl_module p)"

section \<open>Loading and unloading\<close>

text \<open>
  The process the tool runs in: \<^verbatim>\<open>os.environ\<close> and the lines printed so far.
\<close>

record process =
  environ :: "string \<rightharpoonup> string"
  stdout :: "string list"

subsection \<open>The methods of \<^verbatim>\<open>BashLoader\<close>\<close>

definition bash_set_env :: "string \<Rightarrow> string \<Rightarrow> string" where
  "bash_set_env env_name env_data = ''export '' @ env_name @ ''='' @ env_data"

text \<open>
  \<^verbatim>\<open>BashLoader.prepend_env\<close> reads \<^verbatim>\<open>os.environ[env_name]\<close>, which raises \<^verbatim>\<open>KeyError\<close>
  for a variable that is not set, before it asks whether the variable is set.
\<close>

definition bash_prepend_env :: "process \<Rightarrow> string \<Rightarrow> string list \<Rightarrow> error + string" where
  "bash_prepend_env w env_name values =
     (let path_str = str_join '':'' values
      in case environ w env_name of
           None \<Rightarrow> Inl (KeyError env_name)
         | Some env_val \<Rightarrow>
             (if environ w env_name \<noteq> None
              then Inr (''export '' @ env_name @ ''='' @ path_str @ '':'' @ env_val)
              else Inr (''export '' @ env_name @ ''='' @ path_str)))"

definition bash_unset_env :: "string \<Rightarrow> string" where
  "bash_unset_env env_name = ''unset '' @ env_name"

subsection \<open>\<^verbatim>\<open>ScriptLoader\<close>, with the methods of \<^verbatim>\<open>BashLoader\<close>\<close>

text \<open>
  \<^verbatim>\<open>is_loaded\<close>: \<^verbatim>\<open>os.environ.get(name)\<close> is tested for truth, so an empty value counts
  as not loaded.
\<close>

definition is_loaded :: "package \<Rightarrow> process \<Rightarrow> bool" where
  "is_loaded p w =
     (case environ w (mod_load_name p) of None \<Rightarrow> False | Some v \<Rightarrow> v \<noteq> [])"

text \<open>The loop of \<^verbatim>\<open>module_load\<close> over the prepends; a \<^verbatim>\<open>KeyError\<close> ends it.\<close>

fun load_prepends ::
  "process \<Rightarrow> (string \<times> string list) list \<Rightarrow> string list \<Rightarrow> error + string list" where
  "load_prepends w [] envs = Inr envs"
| "load_prepends w ((env, values) # rest) envs =
     (if values \<noteq> []
      then (case bash_prepend_env w env values of
              Inl e \<Rightarrow> Inl e
            | Inr line \<Rightarrow> load_prepends w rest (envs @ [line]))
      else load_prepends w rest envs)"

text \<open>
  \<^verbatim>\<open>ScriptLoader.module_load\<close>: the result and the process afterwards. \<^verbatim>\<open>exit(1)\<close> raises
  \<^verbatim>\<open>SystemExit\<close>.
\<close>

definition module_load :: "package \<Rightarrow> process \<Rightarrow> (error + string) \<times> process" where
  "module_load p w =
     (if is_loaded p w
      then (Inl (SystemExit 1),
            w\<lparr>stdout := stdout w @ [''Module '' @ name p @ '' is already loaded'']\<rparr>)
      else
        (let envs = [];
             envs = fold (\<lambda>(env, env_data) envs. envs @ [bash_set_env env env_data])
                      (setenvs (sections p)) envs
         in case load_prepends w (prepends (sections p)) envs of
              Inl e \<Rightarrow> (Inl e, w)
            | Inr envs \<Rightarrow>
                (Inr (str_join [CHR 0x0A] (envs @ [bash_set_env (mod_load_name p) ''1''])), w)))"

text \<open>
  The loop of \<^verbatim>\<open>module_unload\<close> over the prepends: it writes the stripped value back to
  \<^verbatim>\<open>os.environ\<close> and emits an assignment of it, for the variables that are set.
\<close>

fun unload_prepends ::
  "(string \<times> string list) list \<Rightarrow> (string \<rightharpoonup> string) \<times> string list
     \<Rightarrow> (string \<rightharpoonup> string) \<times> string list" where
  "unload_prepends [] (env_map, envs) = (env_map, envs)"
| "unload_prepends ((env, values) # rest) (env_map, envs) =
     (if values \<noteq> []
      then (let path_str = str_join '':'' values
            in case env_map env of
                 Some old \<Rightarrow>
                   (let new = str_strip '':'' (str_replace path_str [] old)
                    in unload_prepends rest
                         (env_map(env \<mapsto> new), envs @ [bash_set_env env new]))
               | None \<Rightarrow> unload_prepends rest (env_map, envs))
      else unload_prepends rest (env_map, envs))"

text \<open>
  \<^verbatim>\<open>ScriptLoader.module_unload\<close>. The line \<^verbatim>\<open>self.unset_env(self.mod_load_name)\<close> builds
  the text that unsets the flag and drops it: it is not appended to \<^verbatim>\<open>envs\<close>.
\<close>

definition module_unload :: "package \<Rightarrow> process \<Rightarrow> (error + string) \<times> process" where
  "module_unload p w =
     (if \<not> is_loaded p w
      then (Inl (SystemExit 1),
            w\<lparr>stdout := stdout w @ [''Module '' @ name p @ '' is not loaded'']\<rparr>)
      else
        (let envs = [];
             envs = fold (\<lambda>env envs. envs @ [bash_unset_env env])
                      (map fst (setenvs (sections p))) envs;
             (env_map, envs) = unload_prepends (prepends (sections p)) (environ w, envs);
             dropped = bash_unset_env (mod_load_name p)
         in (Inr (str_join [CHR 0x0A] envs), w\<lparr>environ := env_map\<rparr>)))"

section \<open>Sequences of accessor calls\<close>

datatype accessor =
    SetEnv string string
  | PrependEnv string str_or_list
  | RmEnv string
  | PopPrepend string string
  | AddDeps str_or_list
  | PopDeps str_or_list
  | ResetConfig

fun apply_accessor :: "accessor \<Rightarrow> package \<Rightarrow> package" where
  "apply_accessor (SetEnv x v) p = set_env x v p"
| "apply_accessor (PrependEnv x d) p = prepend_env x d p"
| "apply_accessor (RmEnv x) p = rm_env x p"
| "apply_accessor (PopPrepend x d) p = fst (pop_prepend x d p)"
| "apply_accessor (AddDeps ds) p = add_deps ds p"
| "apply_accessor (PopDeps ds) p = pop_deps ds p"
| "apply_accessor ResetConfig p = reset_config p"

definition run_accessors :: "accessor list \<Rightarrow> package \<Rightarrow> package" where
  "run_accessors ops p = fold apply_accessor ops p"

text \<open>No variable is a key of \<^verbatim>\<open>setenvs\<close> and of \<^verbatim>\<open>prepends\<close> at once.\<close>

definition setenvs_prepends_disjoint :: "package \<Rightarrow> bool" where
  "setenvs_prepends_disjoint p =
     (set (map fst (setenvs (sections p))) \<inter> set (map fst (prepends (sections p))) = {})"

text \<open>
  Along the run, every \<^verbatim>\<open>prepend_env\<close> is called for a variable that is not a key of
  \<^verbatim>\<open>setenvs\<close> when it is called.
\<close>

fun prepends_avoid_setenvs :: "accessor list \<Rightarrow> package \<Rightarrow> bool" where
  "prepends_avoid_setenvs [] p = True"
| "prepends_avoid_setenvs (PrependEnv x d # ops) p =
     (\<not> dict_contains x (setenvs (sections p))
      \<and> prepends_avoid_setenvs ops (prepend_env x d p))"
| "prepends_avoid_setenvs (a # ops) p = prepends_avoid_setenvs ops (apply_accessor a p)"

section \<open>Sample packages and processes\<close>

text \<open>The package \<^verbatim>\<open>foo\<close> under \<^verbatim>\<open>/opt\<close>, as \<^verbatim>\<open>Package('foo')\<close> builds it.\<close>

definition pkg_foo :: package where
  "pkg_foo = init_package ''/opt'' ''foo''"

text \<open>The package of the example: no assignment and the prepend \<^verbatim>\<open>{"PATH": ["/x/bin"]}\<close>.\<close>

definition pkg_x :: package where
  "pkg_x =
     \<lparr>name = ''x'', pkg_root = ''/x'',
      sections = \<lparr>doc = [(''Name'', ''x'')], deps = [],
                  setenvs = [],
                  prepends = [(''PATH'', [''/x/bin''])],
                  appends = None\<rparr>\<rparr>"

text \<open>A package whose sections have the key \<^verbatim>\<open>appends\<close>, as a stored document can.\<close>

definition with_appends :: "(string \<times> string list) list \<Rightarrow> package \<Rightarrow> package" where
  "with_appends app p = p\<lparr>sections := (sections p)\<lparr>appends := Some app\<rparr>\<rparr>"

text \<open>
  A process in which \<^verbatim>\<open>x\<close> is loaded, one with an empty environment, and one in which
  the flag of \<^verbatim>\<open>x\<close> is set to the empty string.
\<close>

definition proc_loaded :: process where
  "proc_loaded =
     \<lparr>environ = [''SCSPKG_x_LOADED'' \<mapsto> ''1'', ''PATH'' \<mapsto> ''/x/bin:/usr/bin''],
      stdout = []\<rparr>"

definition proc_bare :: process where
  "proc_bare = \<lparr>environ = Map.empty, stdout = []\<rparr>"

definition proc_empty_flag :: process where
  "proc_empty_flag =
     \<lparr>environ = [''SCSPKG_x_LOADED'' \<mapsto> [], ''PATH'' \<mapsto> ''/usr/bin''], stdout = []\<rparr>"

text \<open>A process in which \<^verbatim>\<open>foo\<close> is loaded.\<close>

definition proc_foo :: process where
  "proc_foo =
     \<lparr>environ = [''SCSPKG_foo_LOADED'' \<mapsto> ''1'',
                 ''PATH'' \<mapsto> ''/opt/foo/bin:/opt/foo/sbin:/usr/bin''],
      stdout = []\<rparr>"

section \<open>Dictionaries and loops\<close>

lemma contains_lookup: "dict_contains x al \<Longrightarrow> \<exists>v. map_of al x = Some v"
  by (auto simp: dict_contains_def dest: weak_map_of_SomeI)

lemma absent_lookup: "\<not> dict_contains x al \<Longrightarrow> map_of al x = None"
  by (simp add: dict_contains_def map_of_eq_None_iff)

lemma keys_delete: "fst ` set (AList.delete k al) = fst ` set al - {k}"
  by (induction al) auto

lemma keys_defined: "map_of al k = Some v \<Longrightarrow> insert k (fst ` set al) = fst ` set al"
  by (auto dest: map_of_SomeD intro: rev_image_eqI)

lemma delete_as_filter: "AList.delete x al = filter (\<lambda>e. fst e \<noteq> x) al"
  by (induction al) auto

lemma filter_absent: "\<not> dict_contains x al \<Longrightarrow> filter (\<lambda>e. fst e \<noteq> x) al = al"
  by (induction al) (auto simp: dict_contains_def)

lemma filter_update_other:
  "filter (\<lambda>e. fst e \<noteq> x) (AList.update x v al) = filter (\<lambda>e. fst e \<noteq> x) al"
  by (induction al) auto

lemma lookup_filter_other:
  "y \<noteq> x \<Longrightarrow> map_of (filter (\<lambda>e. fst e \<noteq> x) al) y = map_of al y"
  by (induction al) auto

text \<open>A loop that appends one line per round builds the list of the lines.\<close>

lemma fold_snoc: "fold (\<lambda>x acc. acc @ [f x]) xs acc = acc @ map f xs"
  by (induction xs arbitrary: acc) simp_all

lemma fold_snoc_pair:
  "fold (\<lambda>(a, b) acc. acc @ [f a b]) xs acc = acc @ map (\<lambda>(a, b). f a b) xs"
  by (induction xs arbitrary: acc) (simp_all add: case_prod_beta)

lemma fold_snoc_nested:
  "fold (\<lambda>(e, vs) acc. fold (\<lambda>v acc. acc @ [g e v]) vs acc) xs acc
     = acc @ concat (map (\<lambda>(e, vs). map (g e) vs) xs)"
  by (induction xs arbitrary: acc) (simp_all add: case_prod_beta fold_snoc)

lemma concat_nonempty_entries:
  "concat (map (\<lambda>(e, vs). map (g e) vs) (filter (\<lambda>(e, vs). vs \<noteq> []) xs))
     = concat (map (\<lambda>(e, vs). map (g e) vs) xs)"
  by (induction xs) (auto simp: case_prod_beta)

section \<open>The accessors\<close>

lemma setenvs_set_env:
  "setenvs (sections (set_env x v p)) = AList.update x v (setenvs (sections p))"
  by (simp add: set_env_def Let_def)

lemma prepends_set_env:
  "prepends (sections (set_env x v p)) = filter (\<lambda>e. fst e \<noteq> x) (prepends (sections p))"
  by (simp add: set_env_def Let_def delete_as_filter filter_absent)

text \<open>
  Claim C4. After \<^verbatim>\<open>set_env(x, v)\<close> the section \<^verbatim>\<open>setenvs\<close> maps \<open>x\<close> to \<open>v\<close> and
  \<^verbatim>\<open>prepends\<close> has no key \<open>x\<close>: the entry of \<open>x\<close> there is deleted. Every other entry of
  \<^verbatim>\<open>setenvs\<close> and of \<^verbatim>\<open>prepends\<close> stays as it was and where it was, and so do the other
  sections and the fields of the package.
\<close>

theorem set_env_sections:
  "map_of (setenvs (sections (set_env x v p))) x = Some v
   \<and> \<not> dict_contains x (prepends (sections (set_env x v p)))
   \<and> filter (\<lambda>e. fst e \<noteq> x) (setenvs (sections (set_env x v p)))
       = filter (\<lambda>e. fst e \<noteq> x) (setenvs (sections p))
   \<and> prepends (sections (set_env x v p)) = filter (\<lambda>e. fst e \<noteq> x) (prepends (sections p))
   \<and> (\<forall>y. y \<noteq> x \<longrightarrow>
         map_of (setenvs (sections (set_env x v p))) y = map_of (setenvs (sections p)) y
         \<and> map_of (prepends (sections (set_env x v p))) y = map_of (prepends (sections p)) y)
   \<and> doc (sections (set_env x v p)) = doc (sections p)
   \<and> deps (sections (set_env x v p)) = deps (sections p)
   \<and> appends (sections (set_env x v p)) = appends (sections p)
   \<and> name (set_env x v p) = name p \<and> pkg_root (set_env x v p) = pkg_root p"
proof -
  have "map_of (setenvs (sections (set_env x v p))) x = Some v"
    by (simp add: setenvs_set_env update_conv')
  moreover have "\<not> dict_contains x (prepends (sections (set_env x v p)))"
    by (auto simp: prepends_set_env dict_contains_def)
  moreover have "filter (\<lambda>e. fst e \<noteq> x) (setenvs (sections (set_env x v p)))
       = filter (\<lambda>e. fst e \<noteq> x) (setenvs (sections p))"
    by (simp add: setenvs_set_env filter_update_other)
  moreover have "\<forall>y. y \<noteq> x \<longrightarrow>
         map_of (setenvs (sections (set_env x v p))) y = map_of (setenvs (sections p)) y
         \<and> map_of (prepends (sections (set_env x v p))) y = map_of (prepends (sections p)) y"
    by (simp add: setenvs_set_env prepends_set_env update_conv' lookup_filter_other)
  moreover have "doc (sections (set_env x v p)) = doc (sections p)
   \<and> deps (sections (set_env x v p)) = deps (sections p)
   \<and> appends (sections (set_env x v p)) = appends (sections p)
   \<and> name (set_env x v p) = name p \<and> pkg_root (set_env x v p) = pkg_root p"
    by (simp add: set_env_def Let_def)
  ultimately show ?thesis using prepends_set_env by blast
qed

theorem set_env_sections_witness:
  "map_of (setenvs (sections (set_env ''PATH'' ''/usr/bin'' pkg_foo))) ''PATH''
     = Some ''/usr/bin''
   \<and> \<not> dict_contains ''PATH'' (prepends (sections (set_env ''PATH'' ''/usr/bin'' pkg_foo)))
   \<and> map_of (prepends (sections (set_env ''PATH'' ''/usr/bin'' pkg_foo))) ''CMAKE_PREFIX_PATH''
     = Some [''/opt/foo/cmake'']"
proof -
  have "map_of (prepends (sections pkg_foo)) ''CMAKE_PREFIX_PATH'' = Some [''/opt/foo/cmake'']"
    by (simp add: pkg_foo_def init_package_def reset_config_def startswith_def endswith_def)
  moreover have "''CMAKE_PREFIX_PATH'' \<noteq> ''PATH''"
    by simp
  ultimately show ?thesis
    using set_env_sections [of "''PATH''" "''/usr/bin''" pkg_foo] by metis
qed

lemma prepends_prepend_env:
  "map_of (prepends (sections (prepend_env x d p))) x
     = Some ((case map_of (prepends (sections p)) x of None \<Rightarrow> [] | Some old \<Rightarrow> old)
             @ as_list d)"
proof (cases "dict_contains x (prepends (sections p))")
  case True
  then obtain old where "map_of (prepends (sections p)) x = Some old"
    using contains_lookup by fastforce
  with True show ?thesis
    by (simp add: prepend_env_def Let_def map_of_map_entry)
next
  case False
  then have "map_of (prepends (sections p)) x = None"
    by (rule absent_lookup)
  with False show ?thesis
    by (simp add: prepend_env_def Let_def map_of_map_entry update_conv')
qed

text \<open>
  Claim C6, as amended. \<^verbatim>\<open>prepend_env\<close> takes a string as the list of that one string,
  starts a variable that has no entry with the empty list, and puts the new fragments after
  the ones the variable has: \<^verbatim>\<open>prepend_env(x, [a])\<close> and then \<^verbatim>\<open>prepend_env(x, [b])\<close> leave
  under \<open>x\<close> the fragments it had, followed by \<open>a\<close> and \<open>b\<close>. That is \<open>[a, b]\<close> when \<open>x\<close>
  had no fragments.
\<close>

theorem prepend_env_extends:
  "prepend_env x (Str a) p = prepend_env x (Lst [a]) p
   \<and> map_of (prepends (sections (prepend_env x d p))) x
       = Some ((case map_of (prepends (sections p)) x of None \<Rightarrow> [] | Some old \<Rightarrow> old)
               @ as_list d)
   \<and> map_of (prepends (sections (prepend_env x (Lst [b]) (prepend_env x (Lst [a]) p)))) x
       = Some ((case map_of (prepends (sections p)) x of None \<Rightarrow> [] | Some old \<Rightarrow> old)
               @ [a, b])"
  by (simp add: prepends_prepend_env) (simp add: prepend_env_def)

text \<open>
  In the skeleton \<^verbatim>\<open>PATH\<close> has two fragments, and they stay in front of \<open>a\<close> and \<open>b\<close>.
\<close>

theorem prepend_env_counterexample:
  "map_of (prepends (sections
      (prepend_env ''PATH'' (Lst [''b'']) (prepend_env ''PATH'' (Lst [''a'']) pkg_foo)))) ''PATH''
     = Some [''/opt/foo/bin'', ''/opt/foo/sbin'', ''a'', ''b'']"
  by (simp add: prepends_prepend_env)
     (simp add: pkg_foo_def init_package_def reset_config_def startswith_def endswith_def)

text \<open>
  Claim C7. On the skeleton of \<^verbatim>\<open>reset_config\<close>, which has no section \<^verbatim>\<open>appends\<close>,
  \<^verbatim>\<open>append_env\<close> does not start an entry: it raises \<^verbatim>\<open>KeyError('appends')\<close>, for every
  variable and value.
\<close>

theorem append_env_skeleton: "append_env x d (reset_config p) = Inl (KeyError ''appends'')"
  by (simp add: append_env_def reset_config_def)

text \<open>
  So does \<^verbatim>\<open>build_profile\<close> on a rebuild, which calls \<^verbatim>\<open>append_env\<close> right after
  \<^verbatim>\<open>reset_config\<close>, whenever the snapshot has an entry.
\<close>

lemma build_profile_rebuild:
  "build_profile ((env_key, env_data) # rest) True p = Inl (KeyError ''appends'')"
  by (simp add: build_profile_def append_env_def reset_config_def)

lemma append_env_Some:
  assumes "appends (sections p) = Some app"
  shows "append_env x d p
           = Inr (p\<lparr>sections := (sections p)\<lparr>appends :=
                Some (AList.update x
                  (as_list d @ (case map_of app x of None \<Rightarrow> [] | Some old \<Rightarrow> old)) app)\<rparr>\<rparr>)"
proof (cases "dict_contains x app")
  case True
  then obtain old where "map_of app x = Some old"
    using contains_lookup by fastforce
  with True assms show ?thesis
    by (simp add: append_env_def Let_def)
next
  case False
  then have "map_of app x = None" by (rule absent_lookup)
  with False assms show ?thesis
    by (simp add: append_env_def Let_def update_conv')
qed

text \<open>
  Claim C8, as amended. Where the sections have the key \<^verbatim>\<open>appends\<close>, \<^verbatim>\<open>append_env\<close>
  succeeds and puts the new fragments in front of the ones the variable has:
  \<^verbatim>\<open>append_env(x, [a])\<close> and then \<^verbatim>\<open>append_env(x, [b])\<close> leave under \<open>x\<close> the list
  \<open>[b, a]\<close>, followed by the fragments \<open>x\<close> had.
\<close>

theorem append_env_twice:
  assumes "appends (sections p) = Some app"
  shows "\<exists>p1 p2 app2.
           append_env x (Lst [a]) p = Inr p1 \<and> append_env x (Lst [b]) p1 = Inr p2
           \<and> appends (sections p2) = Some app2
           \<and> map_of app2 x
               = Some ([b, a] @ (case map_of app x of None \<Rightarrow> [] | Some old \<Rightarrow> old))"
proof -
  let ?old = "case map_of app x of None \<Rightarrow> [] | Some old \<Rightarrow> old"
  let ?app1 = "AList.update x ([a] @ ?old) app"
  let ?p1 = "p\<lparr>sections := (sections p)\<lparr>appends := Some ?app1\<rparr>\<rparr>"
  let ?app2 = "AList.update x ([b] @ [a] @ ?old) ?app1"
  let ?p2 = "?p1\<lparr>sections := (sections ?p1)\<lparr>appends := Some ?app2\<rparr>\<rparr>"
  have s1: "append_env x (Lst [a]) p = Inr ?p1"
    using append_env_Some [OF assms, of x "Lst [a]"] by simp
  have "appends (sections ?p1) = Some ?app1" by simp
  from append_env_Some [OF this, of x "Lst [b]"]
  have s2: "append_env x (Lst [b]) ?p1 = Inr ?p2"
    by (simp add: update_conv')
  have "appends (sections ?p2) = Some ?app2" by simp
  moreover have "map_of ?app2 x = Some ([b, a] @ ?old)"
    by (simp add: update_conv')
  ultimately show ?thesis using s1 s2 by blast
qed

theorem append_env_twice_witness:
  "appends (sections (with_appends [] pkg_x)) = Some []
   \<and> (\<exists>p1 p2 app2.
         append_env ''V'' (Lst [''a'']) (with_appends [] pkg_x) = Inr p1
         \<and> append_env ''V'' (Lst [''b'']) p1 = Inr p2
         \<and> appends (sections p2) = Some app2
         \<and> map_of app2 ''V'' = Some [''b'', ''a''])"
proof -
  have h: "appends (sections (with_appends [] pkg_x)) = Some []"
    by (simp add: with_appends_def)
  show ?thesis
    using h append_env_twice [OF h, of "''V''" "''a''" "''b''"] by simp
qed

text \<open>With an empty section \<^verbatim>\<open>appends\<close> the two calls leave \<open>[b, a]\<close>, not \<open>[a, b]\<close>.\<close>

theorem append_env_counterexample:
  "append_env ''V'' (Lst [''a'']) (with_appends [] pkg_x)
     = Inr (with_appends [(''V'', [''a''])] pkg_x)
   \<and> append_env ''V'' (Lst [''b'']) (with_appends [(''V'', [''a''])] pkg_x)
     = Inr (with_appends [(''V'', [''b'', ''a''])] pkg_x)"
  by (simp add: append_env_def with_appends_def dict_contains_def)

section \<open>Sequences of accessor calls keep the two sections apart\<close>

lemma keys_set_env:
  "fst ` set (setenvs (sections (set_env x v p))) = insert x (fst ` set (setenvs (sections p)))"
  "fst ` set (prepends (sections (set_env x v p))) = fst ` set (prepends (sections p)) - {x}"
  by (simp_all add: set_env_def Let_def dict_contains_def dom_update keys_delete)

lemma keys_prepend_env:
  "fst ` set (setenvs (sections (prepend_env x d p))) = fst ` set (setenvs (sections p))"
  "fst ` set (prepends (sections (prepend_env x d p)))
     = insert x (fst ` set (prepends (sections p)))"
  by (auto simp: prepend_env_def Let_def dict_contains_def dom_update dom_map_entry)

lemma keys_rm_env:
  "fst ` set (setenvs (sections (rm_env x p))) = fst ` set (setenvs (sections p)) - {x}"
  "fst ` set (prepends (sections (rm_env x p))) = fst ` set (prepends (sections p)) - {x}"
  by (simp_all add: rm_env_def Let_def dict_contains_def keys_delete)

lemma keys_pop_prepend:
  "fst ` set (setenvs (sections (fst (pop_prepend x d p)))) = fst ` set (setenvs (sections p))"
  "fst ` set (prepends (sections (fst (pop_prepend x d p)))) = fst ` set (prepends (sections p))"
  by (simp_all add: pop_prepend_def dom_update keys_defined split: option.splits)

lemma disjoint_keys:
  "setenvs_prepends_disjoint p
     \<longleftrightarrow> fst ` set (setenvs (sections p)) \<inter> fst ` set (prepends (sections p)) = {}"
  by (simp add: setenvs_prepends_disjoint_def)

lemma disjoint_set_env:
  "setenvs_prepends_disjoint p \<Longrightarrow> setenvs_prepends_disjoint (set_env x v p)"
  unfolding disjoint_keys keys_set_env by blast

lemma disjoint_prepend_env:
  "setenvs_prepends_disjoint p \<Longrightarrow> \<not> dict_contains x (setenvs (sections p))
     \<Longrightarrow> setenvs_prepends_disjoint (prepend_env x d p)"
  unfolding disjoint_keys keys_prepend_env dict_contains_def by simp

lemma disjoint_rm_env:
  "setenvs_prepends_disjoint p \<Longrightarrow> setenvs_prepends_disjoint (rm_env x p)"
  unfolding disjoint_keys keys_rm_env by blast

lemma disjoint_pop_prepend:
  "setenvs_prepends_disjoint p \<Longrightarrow> setenvs_prepends_disjoint (fst (pop_prepend x d p))"
  unfolding disjoint_keys keys_pop_prepend by simp

lemma disjoint_add_deps:
  "setenvs_prepends_disjoint p \<Longrightarrow> setenvs_prepends_disjoint (add_deps ds p)"
  by (simp add: setenvs_prepends_disjoint_def add_deps_def)

lemma disjoint_pop_deps:
  "setenvs_prepends_disjoint p \<Longrightarrow> setenvs_prepends_disjoint (pop_deps ds p)"
  by (simp add: setenvs_prepends_disjoint_def pop_deps_def)

lemma disjoint_reset_config: "setenvs_prepends_disjoint (reset_config p)"
  by (simp add: setenvs_prepends_disjoint_def reset_config_def)

lemma disjoint_run:
  "setenvs_prepends_disjoint p \<Longrightarrow> prepends_avoid_setenvs ops p
     \<Longrightarrow> setenvs_prepends_disjoint (run_accessors ops p)"
proof (induction ops arbitrary: p)
  case Nil
  then show ?case by (simp add: run_accessors_def)
next
  case (Cons a ops)
  have step: "setenvs_prepends_disjoint (apply_accessor a p)"
    using Cons.prems
    by (cases a)
       (simp_all add: disjoint_set_env disjoint_prepend_env disjoint_rm_env
          disjoint_pop_prepend disjoint_add_deps disjoint_pop_deps disjoint_reset_config)
  have rest: "prepends_avoid_setenvs ops (apply_accessor a p)"
    using Cons.prems(2) by (cases a) simp_all
  have "run_accessors (a # ops) p = run_accessors ops (apply_accessor a p)"
    by (simp add: run_accessors_def)
  with Cons.IH [OF step rest] show ?case by simp
qed

text \<open>
  Claim C5, as amended. From the skeleton, a sequence of calls of \<^verbatim>\<open>set_env\<close>,
  \<^verbatim>\<open>prepend_env\<close>, \<^verbatim>\<open>rm_env\<close>, \<^verbatim>\<open>pop_prepend\<close>, \<^verbatim>\<open>add_deps\<close>, \<^verbatim>\<open>pop_deps\<close> and
  \<^verbatim>\<open>reset_config\<close> leaves no variable a key of \<^verbatim>\<open>setenvs\<close> and of \<^verbatim>\<open>prepends\<close> at once,
  provided every \<^verbatim>\<open>prepend_env\<close> in it is called for a variable that is not a key of
  \<^verbatim>\<open>setenvs\<close> at that moment.
\<close>

theorem accessors_keep_disjoint:
  "prepends_avoid_setenvs ops (reset_config p)
     \<Longrightarrow> setenvs_prepends_disjoint (run_accessors ops (reset_config p))"
  by (rule disjoint_run [OF disjoint_reset_config])

theorem accessors_keep_disjoint_witness:
  "prepends_avoid_setenvs
     [SetEnv ''PATH'' ''/usr/bin'', PrependEnv ''CPATH'' (Str ''/opt/foo/include''),
      RmEnv ''CFLAGS'', PopPrepend ''PYTHONPATH'' ''/opt/foo/lib'', AddDeps (Str ''gcc''),
      PopDeps (Lst [''gcc'']), PrependEnv ''FOO'' (Lst [''a''])]
     (reset_config pkg_foo)
   \<and> setenvs_prepends_disjoint
     (run_accessors
       [SetEnv ''PATH'' ''/usr/bin'', PrependEnv ''CPATH'' (Str ''/opt/foo/include''),
        RmEnv ''CFLAGS'', PopPrepend ''PYTHONPATH'' ''/opt/foo/lib'', AddDeps (Str ''gcc''),
        PopDeps (Lst [''gcc'']), PrependEnv ''FOO'' (Lst [''a''])]
       (reset_config pkg_foo))"
proof -
  have h: "prepends_avoid_setenvs
     [SetEnv ''PATH'' ''/usr/bin'', PrependEnv ''CPATH'' (Str ''/opt/foo/include''),
      RmEnv ''CFLAGS'', PopPrepend ''PYTHONPATH'' ''/opt/foo/lib'', AddDeps (Str ''gcc''),
      PopDeps (Lst [''gcc'']), PrependEnv ''FOO'' (Lst [''a''])]
     (reset_config pkg_foo)"
    by (simp add: reset_config_def set_env_def prepend_env_def rm_env_def pop_prepend_def
        add_deps_def pop_deps_def dict_contains_def Let_def)
  from accessors_keep_disjoint [OF h] h show ?thesis by simp
qed

text \<open>
  \<^verbatim>\<open>prepend_env\<close> does not look at \<^verbatim>\<open>setenvs\<close>: after \<^verbatim>\<open>set_env('FOO', '1')\<close> it makes
  \<^verbatim>\<open>FOO\<close> a key of both sections.
\<close>

theorem accessors_counterexample:
  "\<not> setenvs_prepends_disjoint
       (run_accessors [SetEnv ''FOO'' ''1'', PrependEnv ''FOO'' (Lst [''a''])] pkg_foo)"
  by (simp add: setenvs_prepends_disjoint_def run_accessors_def pkg_foo_def init_package_def
      reset_config_def set_env_def prepend_env_def dict_contains_def)

section \<open>The lines of the modulefile\<close>

lemma tcl_module_lines:
  "tcl_module p =
     [''#%Module1.0'']
     @ map (\<lambda>(doc_key, doc_val).
              ''module-whatis '' @ [CHR 0x27] @ doc_key @ '': '' @ doc_val @ [CHR 0x27])
         (doc (sections p))
     @ map (\<lambda>(dep, flag). ''module load '' @ dep) (deps (sections p))
     @ map (\<lambda>(env, env_data). ''setenv '' @ env @ '' '' @ env_data) (setenvs (sections p))
     @ concat (map (\<lambda>(env, values).
                 map (\<lambda>env_data. ''prepend-path '' @ env @ '' '' @ env_data) values)
         (prepends (sections p)))"
  unfolding tcl_module_def Let_def
  by (simp add: fold_snoc fold_snoc_pair fold_snoc_nested case_prod_beta)

text \<open>
  Claim C9. The text \<^verbatim>\<open>_save_as_tcl\<close> writes is a function of the sections. Its lines are,
  in this order: the header \<^verbatim>\<open>#%Module1.0\<close>; a \<^verbatim>\<open>module-whatis\<close> line for every entry of
  \<^verbatim>\<open>doc\<close>; a \<^verbatim>\<open>module load\<close> line for every key of \<^verbatim>\<open>deps\<close>; a \<^verbatim>\<open>setenv\<close> line for every
  entry of \<^verbatim>\<open>setenvs\<close>; and, for every entry of \<^verbatim>\<open>prepends\<close> whose list of fragments is not
  empty, a \<^verbatim>\<open>prepend-path\<close> line for each of its fragments. Entries and fragments come in the
  order they are stored in, and the lines are joined by newlines.
\<close>

theorem save_as_tcl_text:
  "save_as_tcl p =
     str_join [CHR 0x0A]
       ([''#%Module1.0'']
        @ map (\<lambda>(doc_key, doc_val).
                 ''module-whatis '' @ [CHR 0x27] @ doc_key @ '': '' @ doc_val @ [CHR 0x27])
            (doc (sections p))
        @ map (\<lambda>(dep, flag). ''module load '' @ dep) (deps (sections p))
        @ map (\<lambda>(env, env_data). ''setenv '' @ env @ '' '' @ env_data) (setenvs (sections p))
        @ concat (map (\<lambda>(env, values).
                    map (\<lambda>env_data. ''prepend-path '' @ env @ '' '' @ env_data) values)
            (filter (\<lambda>(env, values). values \<noteq> []) (prepends (sections p)))))"
  unfolding save_as_tcl_def tcl_module_lines
  by (simp only: concat_nonempty_entries)

section \<open>Loading and unloading\<close>

text \<open>
  Claim C1, as amended. \<^verbatim>\<open>module_load\<close>, called when the flag of the package is set to a
  value that is not empty, prints that the module is already loaded and exits with status 1;
  \<^verbatim>\<open>module_unload\<close>, called when the flag is not set or is set to the empty string, prints
  that the module is not loaded and exits with status 1. Neither returns a script, and the
  environment is as it was.
\<close>

theorem guards_refuse:
  "(environ w (mod_load_name p) = Some v \<and> v \<noteq> [] \<longrightarrow>
      fst (module_load p w) = Inl (SystemExit 1)
      \<and> environ (snd (module_load p w)) = environ w
      \<and> stdout (snd (module_load p w))
          = stdout w @ [''Module '' @ name p @ '' is already loaded''])
   \<and> (environ w (mod_load_name p) = None \<or> environ w (mod_load_name p) = Some [] \<longrightarrow>
      fst (module_unload p w) = Inl (SystemExit 1)
      \<and> environ (snd (module_unload p w)) = environ w
      \<and> stdout (snd (module_unload p w))
          = stdout w @ [''Module '' @ name p @ '' is not loaded''])"
  by (auto simp: module_load_def module_unload_def is_loaded_def)

theorem guards_refuse_witness:
  "environ proc_loaded (mod_load_name pkg_x) = Some ''1''
   \<and> fst (module_load pkg_x proc_loaded) = Inl (SystemExit 1)
   \<and> environ (snd (module_load pkg_x proc_loaded)) = environ proc_loaded
   \<and> stdout (snd (module_load pkg_x proc_loaded)) = [''Module x is already loaded'']
   \<and> environ proc_bare (mod_load_name pkg_x) = None
   \<and> fst (module_unload pkg_x proc_bare) = Inl (SystemExit 1)
   \<and> environ (snd (module_unload pkg_x proc_bare)) = environ proc_bare
   \<and> stdout (snd (module_unload pkg_x proc_bare)) = [''Module x is not loaded'']"
proof -
  have a: "environ proc_loaded (mod_load_name pkg_x) = Some ''1''"
    by (simp add: proc_loaded_def mod_load_name_def pkg_x_def)
  have b: "environ proc_bare (mod_load_name pkg_x) = None"
    by (simp add: proc_bare_def)
  have c: "stdout proc_loaded = [] \<and> stdout proc_bare = [] \<and> name pkg_x = ''x''"
    by (simp add: proc_loaded_def proc_bare_def pkg_x_def)
  show ?thesis
    using a b c guards_refuse [of proc_loaded pkg_x "''1''"] guards_refuse [of proc_bare pkg_x]
    by simp
qed

text \<open>
  With the flag set to the empty string the variable is in the environment, and
  \<^verbatim>\<open>module_load\<close> returns the whole script.
\<close>

theorem module_load_empty_flag:
  "environ proc_empty_flag (mod_load_name pkg_x) = Some []
   \<and> module_load pkg_x proc_empty_flag
       = (Inr (str_join [CHR 0x0A]
                 [''export PATH=/x/bin:/usr/bin'', ''export SCSPKG_x_LOADED=1'']),
          proc_empty_flag)"
  by (simp add: module_load_def is_loaded_def proc_empty_flag_def mod_load_name_def pkg_x_def
      bash_prepend_env_def bash_set_env_def)

text \<open>
  Claim C3. For the package with the prepend \<^verbatim>\<open>{"PATH": ["/x/bin"]}\<close>, not loaded, in an
  environment without \<^verbatim>\<open>PATH\<close>, \<^verbatim>\<open>module_load\<close> returns no script: it raises
  \<^verbatim>\<open>KeyError('PATH')\<close>.
\<close>

theorem module_load_unset_variable:
  "module_load pkg_x proc_bare = (Inl (KeyError ''PATH''), proc_bare)"
  by (simp add: module_load_def is_loaded_def proc_bare_def pkg_x_def bash_prepend_env_def)

text \<open>
  Claim C2. For the loaded package \<^verbatim>\<open>foo\<close> with the assignment of \<^verbatim>\<open>FOO_HOME\<close>,
  \<^verbatim>\<open>module_unload\<close> returns two lines, the last of which assigns \<^verbatim>\<open>PATH\<close>: no line unsets
  the flag \<^verbatim>\<open>SCSPKG_foo_LOADED\<close>.
\<close>

theorem module_unload_keeps_flag:
  "fst (module_unload (set_env ''FOO_HOME'' ''/opt/foo'' pkg_foo) proc_foo)
     = Inr (str_join [CHR 0x0A] [''unset FOO_HOME'', ''export PATH=/usr/bin''])"
  by (simp add: module_unload_def is_loaded_def proc_foo_def mod_load_name_def pkg_foo_def
      init_package_def reset_config_def set_env_def dict_contains_def Let_def
      bash_unset_env_def bash_set_env_def str_strip_def startswith_def endswith_def)

lemma unload_prepends_lines:
  "distinct (map fst ps) \<Longrightarrow>
   snd (unload_prepends ps (m, envs))
     = envs @ concat (map (\<lambda>(env, values).
         if values \<noteq> []
         then (case m env of
                 None \<Rightarrow> []
               | Some old \<Rightarrow>
                   [bash_set_env env
                      (str_strip '':'' (str_replace (str_join '':'' values) [] old))])
         else []) ps)"
proof (induction ps arbitrary: m envs)
  case Nil
  then show ?case by simp
next
  case (Cons a ps)
  define line where "line = (\<lambda>(m :: string \<rightharpoonup> string) (env, values).
         if values \<noteq> []
         then (case m env of
                 None \<Rightarrow> []
               | Some old \<Rightarrow>
                   [bash_set_env env
                      (str_strip '':'' (str_replace (str_join '':'' values) [] old))])
         else [])"
  obtain env vals where a: "a = (env, vals)" by (cases a)
  from Cons.prems a have fresh: "env \<notin> fst ` set ps" and dist: "distinct (map fst ps)"
    by simp_all
  have IH: "snd (unload_prepends ps (m', envs')) = envs' @ concat (map (line m') ps)"
    for m' envs'
    using Cons.IH [OF dist] by (simp add: line_def)
  have same: "map (line (m(env \<mapsto> new))) ps = map (line m) ps" for new
  proof (rule map_cong [OF refl])
    fix e assume "e \<in> set ps"
    with fresh have "fst e \<noteq> env" by auto
    then show "line (m(env \<mapsto> new)) e = line m e"
      by (cases e) (simp add: line_def)
  qed
  have "snd (unload_prepends (a # ps) (m, envs)) = envs @ line m a @ concat (map (line m) ps)"
  proof (cases "vals \<noteq> [] \<and> m env \<noteq> None")
    case True
    then obtain old where old: "m env = Some old" by auto
    define new where "new = str_strip '':'' (str_replace (str_join '':'' vals) [] old)"
    have "unload_prepends (a # ps) (m, envs)
        = unload_prepends ps (m(env \<mapsto> new), envs @ [bash_set_env env new])"
      using True old by (simp add: a new_def Let_def)
    then have "snd (unload_prepends (a # ps) (m, envs))
        = (envs @ [bash_set_env env new]) @ concat (map (line m) ps)"
      by (simp only: IH same)
    moreover have "line m a = [bash_set_env env new]"
      using True old by (simp add: line_def a new_def)
    ultimately show ?thesis by simp
  next
    case False
    then have "unload_prepends (a # ps) (m, envs) = unload_prepends ps (m, envs)"
      by (auto simp: a Let_def)
    moreover have "line m a = []"
      using False by (auto simp: line_def a)
    ultimately show ?thesis by (simp add: IH)
  qed
  then show ?case by (simp add: line_def)
qed

lemma strip_example:
  "str_strip '':'' (str_replace ''/x/bin'' [] ''/x/bin:/usr/bin'') = ''/usr/bin''"
  by (simp add: str_strip_def startswith_def)

text \<open>
  Claim C10. For a loaded package, the script of \<^verbatim>\<open>module_unload\<close> is one \<^verbatim>\<open>unset\<close> line
  for every key of \<^verbatim>\<open>setenvs\<close> and then, for every entry of \<^verbatim>\<open>prepends\<close> with fragments,
  one assignment if the variable is set in the environment and no line if it is not. The
  value assigned is the value of the variable with the fragments, joined by colons, taken
  out and the colons at both ends removed. The keys of \<^verbatim>\<open>prepends\<close> are distinct, as those
  of a dictionary are. With \<^verbatim>\<open>{"PATH": ["/x/bin"]}\<close> and \<^verbatim>\<open>PATH=/x/bin:/usr/bin\<close> the script sets
  \<^verbatim>\<open>PATH\<close> to \<^verbatim>\<open>/usr/bin\<close>.
\<close>

theorem module_unload_script:
  assumes "is_loaded p w" and "distinct (map fst (prepends (sections p)))"
  shows "fst (module_unload p w)
     = Inr (str_join [CHR 0x0A]
         (map bash_unset_env (map fst (setenvs (sections p)))
          @ concat (map (\<lambda>(env, values).
              if values \<noteq> []
              then (case environ w env of
                      None \<Rightarrow> []
                    | Some old \<Rightarrow>
                        [bash_set_env env
                           (str_strip '':'' (str_replace (str_join '':'' values) [] old))])
              else []) (prepends (sections p)))))"
proof -
  have "fst (module_unload p w)
      = Inr (str_join [CHR 0x0A]
          (snd (unload_prepends (prepends (sections p))
             (environ w, map bash_unset_env (map fst (setenvs (sections p)))))))"
    using assms(1) by (simp add: module_unload_def fold_snoc case_prod_unfold Let_def)
  then show ?thesis
    by (simp only: unload_prepends_lines [OF assms(2)])
qed

theorem module_unload_script_witness:
  "is_loaded pkg_x proc_loaded \<and> distinct (map fst (prepends (sections pkg_x)))
   \<and> fst (module_unload pkg_x proc_loaded) = Inr ''export PATH=/usr/bin''"
proof -
  have a: "is_loaded pkg_x proc_loaded"
    by (simp add: is_loaded_def proc_loaded_def mod_load_name_def pkg_x_def)
  have b: "distinct (map fst (prepends (sections pkg_x)))"
    by (simp add: pkg_x_def)
  have c: "environ proc_loaded ''PATH'' = Some ''/x/bin:/usr/bin''"
    by (simp add: proc_loaded_def)
  have e: "prepends (sections pkg_x) = [(''PATH'', [''/x/bin''])]"
    "setenvs (sections pkg_x) = []"
    by (simp_all add: pkg_x_def)
  have "fst (module_unload pkg_x proc_loaded)
      = Inr (str_join [CHR 0x0A]
             [bash_set_env ''PATH''
                (str_strip '':'' (str_replace ''/x/bin'' [] ''/x/bin:/usr/bin''))])"
    using module_unload_script [OF a b] by (simp add: e c)
  then have "fst (module_unload pkg_x proc_loaded) = Inr ''export PATH=/usr/bin''"
    by (simp only: strip_example) (simp add: bash_set_env_def)
  with a b show ?thesis by simp
qed

end
